theory Spec2Isabelle
  imports Complex_Main "HOL-Library.Sublist"
begin

section \<open>Values of the script\<close>

text \<open>
  The script \<^verbatim>\<open>main.py\<close> asks a query service for every object id, fetches the objects
  in batches of 1000 ids, stacks the batches into one table, and applies six correction
  rules before writing the table with its row index.

  Strings are byte lists (UTF-8). A table cell is a missing value (\<^verbatim>\<open>None\<close> or
  \<^verbatim>\<open>NaN\<close>, the values for which \<^verbatim>\<open>pd.isna\<close> holds), a string, an integer or a float.
  A Python float is read as a real number throughout.
\<close>

datatype cell = Null | StrV string | IntV int | FloatV real

definition isna :: "cell \<Rightarrow> bool" where
  "isna x = (x = Null)"

text \<open>\<^verbatim>\<open>str\<close> of an integer: its decimal digits, with a leading minus sign.\<close>

definition digit_char :: "nat \<Rightarrow> char" where
  "digit_char d = ''0123456789'' ! d"

fun nat_str :: "nat \<Rightarrow> string" where
  "nat_str n = (if n < 10 then [digit_char n] else nat_str (n div 10) @ [digit_char (n mod 10)])"

declare nat_str.simps [simp del]

definition int_str :: "int \<Rightarrow> string" where
  "int_str i = (if i < 0 then CHR ''-'' # nat_str (nat (- i)) else nat_str (nat i))"

text \<open>
  \<^verbatim>\<open>str(x)\<close> of a cell. The text Python prints for a float (the shortest decimal that
  reads back as the same float) belongs to the language runtime and is the parameter
  \<open>float_str\<close>. The script takes \<^verbatim>\<open>str\<close> of a cell only after \<^verbatim>\<open>pd.isna\<close> has
  failed, so the value given for \<open>Null\<close> is never used.
\<close>

fun py_str :: "(real \<Rightarrow> string) \<Rightarrow> cell \<Rightarrow> string" where
  "py_str float_str Null = ''None''"
| "py_str float_str (StrV s) = s"
| "py_str float_str (IntV i) = int_str i"
| "py_str float_str (FloatV r) = float_str r"

text \<open>
  The text Python prints for a float of integral value below \<open>10 ^ 16\<close> in magnitude:
  the digits of the integer, a point and a zero. It is the instance of \<open>float_str\<close>
  at which the properties below are evaluated.
\<close>

definition integral_float_str :: "real \<Rightarrow> string" where
  "integral_float_str r = int_str \<lfloor>r\<rfloor> @ ''.0''"

section \<open>Power correction\<close>

text \<open>
  \<^verbatim>\<open>CorrectNominalPower(power: float)\<close>. The three branches and their two comparisons
  are those of the source; \<^verbatim>\<open>power / 1000\<close> and \<^verbatim>\<open>power * 1000\<close> are exact (the
  rounding of the quotient and of the product is not part of the model).
\<close>

definition CorrectNominalPower :: "real \<Rightarrow> real" where
  "CorrectNominalPower p =
     (if p > 100 then p / 1000
      else if p < 0.05 then p * 1000
      else p)"

section \<open>Records of the registry\<close>

text \<open>
  A feature as \<^verbatim>\<open>gpd.read_file\<close> delivers it: the attribute columns the rules read or
  write, the remaining attribute columns (\<open>attrs\<close>, by column name), and the geometry,
  a point or missing. The nominal power is a numeric column, \<open>None\<close> standing for NaN.
  A row of the stacked table has the two coordinate columns in addition. The timestamp
  column \<^verbatim>\<open>DATA_ATUALIZACAO\<close> is one of the remaining attribute columns; the
  column \<^verbatim>\<open>DATA_ATUALIZACAO_FORMATADA\<close> the script computes from it is read by no
  rule and is not represented.
\<close>

datatype geom = Point real real

record feature =
  NOME_EOL :: cell
  DEN_AEG :: cell
  UF :: cell
  OPERACAO :: cell
  POT_MW :: "real option"
  attrs :: "(string \<times> cell) list"
  geometry :: "geom option"

record row = feature +
  longitude :: "real option"
  latitude :: "real option"

text \<open>A table is the list of its rows in order, each with its index label.\<close>

type_synonym 'a frame = "(nat \<times> 'a) list"

type_synonym table = "row frame"

section \<open>The query service\<close>

datatype error =
  ConnectionError | JSONDecodeError | KeyError | TypeError | HTTPError
  | DataSourceError | ValueError

text \<open>
  The value under a key of a JSON object: \<^verbatim>\<open>null\<close> or an array of integers (other
  JSON values under \<^verbatim>\<open>objectIds\<close> are outside the model). A response body is text that
  is no JSON, a JSON object that is no feature collection, or a GeoJSON feature
  collection.
\<close>

datatype jval = JNull | JIds "int list"

datatype body =
  NotJson
  | JsonObject "string \<rightharpoonup> jval"
  | FeatureCollection "feature list"

record response =
  status_code :: nat
  payload :: body

type_synonym params = "(string \<times> string) list"

text \<open>
  The service answers a request's parameters with a response, or the transport fails
  and \<^verbatim>\<open>requests.get\<close> raises.
\<close>

type_synonym service = "params \<Rightarrow> error + response"

definition ids_params :: params where
  "ids_params = [(''f'', ''json''), (''where'', ''1=1''), (''returnIdsOnly'', ''true'')]"

text \<open>
  \<^verbatim>\<open>FetchAllIds\<close>: \<^verbatim>\<open>requests.get(url, params=params).json()\<close>, then the value under
  \<^verbatim>\<open>objectIds\<close>. The status of the response is not looked at. A feature collection is a
  JSON object with the keys \<^verbatim>\<open>type\<close> and \<^verbatim>\<open>features\<close>, so the lookup fails on it.
\<close>

definition FetchAllIds :: "service \<Rightarrow> error + jval" where
  "FetchAllIds svc =
     (case svc ids_params of
        Inl e \<Rightarrow> Inl e
      | Inr result \<Rightarrow>
          (case payload result of
             NotJson \<Rightarrow> Inl JSONDecodeError
           | FeatureCollection fs \<Rightarrow> Inl KeyError
           | JsonObject obj \<Rightarrow>
               (case obj ''objectIds'' of None \<Rightarrow> Inl KeyError | Some ids \<Rightarrow> Inr ids)))"

text \<open>\<^verbatim>\<open>','.join(map(str, object_ids))\<close> and the parameters of a batch request.\<close>

fun join_comma :: "string list \<Rightarrow> string" where
  "join_comma [] = []"
| "join_comma [s] = s"
| "join_comma (s # t # ss) = s @ '','' @ join_comma (t # ss)"

definition where_condition :: "int list \<Rightarrow> string" where
  "where_condition object_ids = ''OBJECTID IN ('' @ join_comma (map int_str object_ids) @ '')''"

definition batch_params :: "int list \<Rightarrow> params" where
  "batch_params object_ids =
     [(''f'', ''geojson''), (''where'', where_condition object_ids),
      (''outFields'', ''*''), (''returnGeometry'', ''true'')]"

text \<open>\<^verbatim>\<open>result.raise_for_status()\<close> raises for the statuses 400 to 599.\<close>

definition raise_for_status :: "response \<Rightarrow> error + unit" where
  "raise_for_status result =
     (if 400 \<le> status_code result \<and> status_code result < 600 then Inl HTTPError else Inr ())"

definition read_file :: "body \<Rightarrow> error + feature list" where
  "read_file b = (case b of FeatureCollection fs \<Rightarrow> Inr fs | _ \<Rightarrow> Inl DataSourceError)"

definition FetchObjectsBatch :: "service \<Rightarrow> int list \<Rightarrow> error + feature list" where
  "FetchObjectsBatch svc object_ids =
     (case svc (batch_params object_ids) of
        Inl e \<Rightarrow> Inl e
      | Inr result \<Rightarrow>
          (case raise_for_status result of
             Inl e \<Rightarrow> Inl e
           | Inr u \<Rightarrow> read_file (payload result)))"

section \<open>The batch loop\<close>

text \<open>
  \<^verbatim>\<open>range(start, stop, step)\<close> for a step that is not negative; Python raises
  \<^verbatim>\<open>ValueError\<close> for the step 0.
\<close>

function range_from :: "nat \<Rightarrow> nat \<Rightarrow> nat \<Rightarrow> nat list" where
  "range_from i stop step =
     (if 0 < step \<and> i < stop then i # range_from (i + step) stop step else [])"
  by pat_completeness auto
termination
  by (relation "measure (\<lambda>(i, stop, step). stop - i)") auto

declare range_from.simps [simp del]

definition py_range :: "nat \<Rightarrow> nat \<Rightarrow> nat \<Rightarrow> error + nat list" where
  "py_range start stop step =
     (if step = 0 then Inl ValueError else Inr (range_from start stop step))"

text \<open>The slice \<^verbatim>\<open>xs[i:j]\<close> for indices that are not negative.\<close>

definition slice :: "'a list \<Rightarrow> nat \<Rightarrow> nat \<Rightarrow> 'a list" where
  "slice xs i j = take (j - i) (drop i xs)"

text \<open>The chunks the loop cuts: \<^verbatim>\<open>object_ids[i:i+batch_size]\<close> for each \<open>i\<close> of the range.\<close>

definition batches :: "nat \<Rightarrow> 'a list \<Rightarrow> 'a list list" where
  "batches batch_size object_ids =
     map (\<lambda>i. slice object_ids i (i + batch_size)) (range_from 0 (length object_ids) batch_size)"

text \<open>
  The loop body over the remaining range: one request per chunk, the requests issued
  so far are logged, and the first failure ends the run.
\<close>

fun fetch_loop ::
  "service \<Rightarrow> int list \<Rightarrow> nat \<Rightarrow> nat list \<Rightarrow> feature list list
     \<Rightarrow> params list \<times> (error + feature list list)" where
  "fetch_loop svc object_ids batch_size [] gdfs = ([], Inr gdfs)"
| "fetch_loop svc object_ids batch_size (i # rest) gdfs =
     (let batch_ids = slice object_ids i (i + batch_size) in
      case FetchObjectsBatch svc batch_ids of
        Inl e \<Rightarrow> ([batch_params batch_ids], Inl e)
      | Inr gdf_batch \<Rightarrow>
          (case fetch_loop svc object_ids batch_size rest (gdfs @ [gdf_batch]) of
             (reqs, res) \<Rightarrow> (batch_params batch_ids # reqs, res)))"

section \<open>Stacking and derived columns\<close>

text \<open>
  \<^verbatim>\<open>pd.concat(gdfs, ignore_index=True)\<close>: the rows of the batches in order under the
  labels 0, 1, 2, ...; an empty list of batches raises \<^verbatim>\<open>ValueError\<close>.
\<close>

definition concat_ignore_index :: "'a list list \<Rightarrow> error + 'a frame" where
  "concat_ignore_index gdfs =
     (if gdfs = [] then Inl ValueError else Inr (enumerate 0 (concat gdfs)))"

fun geom_x :: "geom option \<Rightarrow> real option" where
  "geom_x None = None"
| "geom_x (Some (Point x y)) = Some x"

fun geom_y :: "geom option \<Rightarrow> real option" where
  "geom_y None = None"
| "geom_y (Some (Point x y)) = Some y"

definition add_lon_lat :: "feature \<Rightarrow> row" where
  "add_lon_lat f =
     feature.extend f
       (row.fields (geom_x (geometry f)) (geom_y (geometry f)))"

definition with_coordinates :: "feature frame \<Rightarrow> table" where
  "with_coordinates t = map (\<lambda>(i, f). (i, add_lon_lat f)) t"

section \<open>The correction rules\<close>

definition Serra_de :: string where
  "Serra_de = ''Serra de Gentio do Ouro XXIII''"

definition Serra_do :: string where
  "Serra_do = ''Serra do Gentio do Ouro XXIII''"

text \<open>The text \<^verbatim>\<open>Sem informa\<close>, c with cedilla, a with tilde, \<^verbatim>\<open>o\<close>, in UTF-8.\<close>

definition Sem_informacao :: string where
  "Sem_informacao = ''Sem informa'' @ [char_of (0xC3::nat), char_of (0xA7::nat),
     char_of (0xC3::nat), char_of (0xA3::nat)] @ ''o''"

text \<open>Rule 1: \<^verbatim>\<open>gdf_total[gdf_total["NOME_EOL"] != "Serra de Gentio do Ouro XXIII"]\<close>.\<close>

definition exclude_rows :: "table \<Rightarrow> table" where
  "exclude_rows t = filter (\<lambda>(i, r). NOME_EOL r \<noteq> StrV Serra_de) t"

text \<open>
  Rules 2 and 3: \<^verbatim>\<open>gdf_total.loc[gdf_total["NOME_EOL"] == name, "UF"] = uf\<close>, on one row
  and on the table.
\<close>

definition set_UF_row :: "string \<Rightarrow> string \<Rightarrow> row \<Rightarrow> row" where
  "set_UF_row name uf r = (if NOME_EOL r = StrV name then r\<lparr>UF := StrV uf\<rparr> else r)"

definition set_UF :: "string \<Rightarrow> string \<Rightarrow> table \<Rightarrow> table" where
  "set_UF name uf t = map (\<lambda>(i, r). (i, set_UF_row name uf r)) t"

definition fix_Asa_Branca :: "table \<Rightarrow> table" where
  "fix_Asa_Branca = set_UF ''Asa Branca III'' ''RN''"

definition fix_Barra :: "table \<Rightarrow> table" where
  "fix_Barra = set_UF ''Barra XI'' ''MG''"

text \<open>Rule 4: \<^verbatim>\<open>gdf_total["POT_MW"].apply(CorrectNominalPower)\<close>; NaN stays NaN.\<close>

definition correct_power_row :: "row \<Rightarrow> row" where
  "correct_power_row r = r\<lparr>POT_MW := map_option CorrectNominalPower (POT_MW r)\<rparr>"

definition correct_power :: "table \<Rightarrow> table" where
  "correct_power t = map (\<lambda>(i, r). (i, correct_power_row r)) t"

text \<open>Rule 5: the lambda applied to the column \<^verbatim>\<open>OPERACAO\<close>.\<close>

definition OPERACAO_lambda :: "(real \<Rightarrow> string) \<Rightarrow> cell \<Rightarrow> cell" where
  "OPERACAO_lambda float_str x =
     (if isna x then StrV Sem_informacao
      else if py_str float_str x = ''1'' then StrV ''Sim''
      else x)"

definition normalize_OPERACAO_row :: "(real \<Rightarrow> string) \<Rightarrow> row \<Rightarrow> row" where
  "normalize_OPERACAO_row float_str r = r\<lparr>OPERACAO := OPERACAO_lambda float_str (OPERACAO r)\<rparr>"

definition normalize_OPERACAO :: "(real \<Rightarrow> string) \<Rightarrow> table \<Rightarrow> table" where
  "normalize_OPERACAO float_str t = map (\<lambda>(i, r). (i, normalize_OPERACAO_row float_str r)) t"

text \<open>The four rules that rewrite a cell, in the order of the script, on one row.\<close>

definition rewrite_row :: "(real \<Rightarrow> string) \<Rightarrow> row \<Rightarrow> row" where
  "rewrite_row float_str r =
     normalize_OPERACAO_row float_str
       (correct_power_row
          (set_UF_row ''Barra XI'' ''MG'' (set_UF_row ''Asa Branca III'' ''RN'' r)))"

text \<open>
  Rule 6: \<^verbatim>\<open>drop_duplicates(subset=["NOME_EOL", "DEN_AEG", "latitude", "longitude"])\<close>
  with the default \<^verbatim>\<open>keep='first'\<close>. Pandas marks a row as duplicated when its values in
  the subset have been seen in a row before it, missing values counting as equal to
  each other, and keeps the rows that are not marked. The cells of one compared column
  are of one kind, as \<^verbatim>\<open>gpd.read_file\<close> delivers them.
\<close>

type_synonym key = "cell \<times> cell \<times> real option \<times> real option"

definition subset_key :: "row \<Rightarrow> key" where
  "subset_key r = (NOME_EOL r, DEN_AEG r, latitude r, longitude r)"

fun duplicated :: "key list \<Rightarrow> table \<Rightarrow> bool list" where
  "duplicated seen [] = []"
| "duplicated seen ((i, r) # t) =
     (subset_key r \<in> set seen) # duplicated (subset_key r # seen) t"

definition keep_unmarked :: "key list \<Rightarrow> table \<Rightarrow> table" where
  "keep_unmarked seen t = map fst (filter (\<lambda>(ir, d). \<not> d) (zip t (duplicated seen t)))"

definition drop_duplicates :: "table \<Rightarrow> table" where
  "drop_duplicates t = keep_unmarked [] t"

definition corrections :: "(real \<Rightarrow> string) \<Rightarrow> table \<Rightarrow> table" where
  "corrections float_str t =
     drop_duplicates
       (normalize_OPERACAO float_str
          (correct_power (fix_Barra (fix_Asa_Branca (exclude_rows t)))))"

section \<open>The run\<close>

definition batch_size :: nat where
  "batch_size = 1000"

text \<open>
  A table has an attribute column when a feature of it has the property. The script
  reads \<^verbatim>\<open>gdf_total["DATA_ATUALIZACAO"]\<close> before the rules, which raises
  \<^verbatim>\<open>KeyError\<close> on a table without that column (an empty table among them).
\<close>

definition has_column :: "string \<Rightarrow> feature frame \<Rightarrow> bool" where
  "has_column name t = list_ex (\<lambda>(i, f). name \<in> set (map fst (attrs f))) t"

text \<open>
  The script from the id query to the table handed to \<^verbatim>\<open>to_csv\<close>, which writes every
  row behind its index label. The result is the log of the requests issued and either
  the error that ended the run or the table written. \<^verbatim>\<open>len\<close> of \<^verbatim>\<open>None\<close> raises
  \<^verbatim>\<open>TypeError\<close>.
\<close>

definition main :: "(real \<Rightarrow> string) \<Rightarrow> service \<Rightarrow> params list \<times> (error + table)" where
  "main float_str svc =
     (case FetchAllIds svc of
        Inl e \<Rightarrow> ([ids_params], Inl e)
      | Inr JNull \<Rightarrow> ([ids_params], Inl TypeError)
      | Inr (JIds object_ids) \<Rightarrow>
          (case py_range 0 (length object_ids) batch_size of
             Inl e \<Rightarrow> ([ids_params], Inl e)
           | Inr starts \<Rightarrow>
               (case fetch_loop svc object_ids batch_size starts [] of
                  (reqs, Inl e) \<Rightarrow> (ids_params # reqs, Inl e)
                | (reqs, Inr gdfs) \<Rightarrow>
                    (case concat_ignore_index gdfs of
                       Inl e \<Rightarrow> (ids_params # reqs, Inl e)
                     | Inr gdf_total \<Rightarrow>
                         (if has_column ''DATA_ATUALIZACAO'' gdf_total
                          then (ids_params # reqs,
                                Inr (corrections float_str (with_coordinates gdf_total)))
                          else (ids_params # reqs, Inl KeyError))))))"

section \<open>A sample registry\<close>

text \<open>
  Concrete inputs at which the properties below are evaluated: three turbines, and a
  service that answers the id query with the ids 1 and 2 under a given status and every
  other request with a given feature collection under the status 200.
\<close>

definition turbine_a :: feature where
  "turbine_a =
     \<lparr>NOME_EOL = StrV ''Asa Branca III'', DEN_AEG = StrV ''AEG-01'', UF = Null,
      OPERACAO = StrV ''1'', POT_MW = Some 4200,
      attrs = [(''DATA_ATUALIZACAO'', IntV 1756177200000), (''CEG'', Null)],
      geometry = Some (Point (-36) (-5))\<rparr>"

definition turbine_b :: feature where
  "turbine_b =
     \<lparr>NOME_EOL = StrV Serra_do, DEN_AEG = StrV ''AEG-02'', UF = StrV ''BA'',
      OPERACAO = Null, POT_MW = Some 0.0042,
      attrs = [(''DATA_ATUALIZACAO'', IntV 1756177200000), (''CEG'', StrV ''EOL.CV.BA'')],
      geometry = Some (Point (-42) (-11))\<rparr>"

definition turbine_c :: feature where
  "turbine_c =
     \<lparr>NOME_EOL = StrV Serra_de, DEN_AEG = StrV ''AEG-02'', UF = StrV ''BA'',
      OPERACAO = StrV ''0'', POT_MW = Some 2,
      attrs = [(''DATA_ATUALIZACAO'', Null), (''ALT_TORRE'', Null)],
      geometry = None\<rparr>"

definition sample_service :: "nat \<Rightarrow> feature list \<Rightarrow> service" where
  "sample_service status fs p =
     (if p = ids_params
      then Inr \<lparr>status_code = status, payload = JsonObject [''objectIds'' \<mapsto> JIds [1, 2]]\<rparr>
      else Inr \<lparr>status_code = 200, payload = FeatureCollection fs\<rparr>)"

section \<open>Properties of the power correction\<close>

text \<open>
  Claim C2, as amended. For every power value p, CorrectNominalPower returns p / 1000
  when p exceeds 100, p * 1000 when p is below 0.05 and p itself otherwise; hence every
  p of the interval [0.05, 100] is returned unchanged. The values returned unchanged
  are those of the interval and, outside it, the value 0.
\<close>

theorem CorrectNominalPower_cases:
  "(p > 100 \<longrightarrow> CorrectNominalPower p = p / 1000) \<and>
   (p < 0.05 \<longrightarrow> CorrectNominalPower p = p * 1000) \<and>
   (\<not> p > 100 \<and> \<not> p < 0.05 \<longrightarrow> CorrectNominalPower p = p) \<and>
   (0.05 \<le> p \<and> p \<le> 100 \<longrightarrow> CorrectNominalPower p = p) \<and>
   (CorrectNominalPower p = p \<longleftrightarrow> (0.05 \<le> p \<and> p \<le> 100) \<or> p = 0)"
  by (auto simp add: CorrectNominalPower_def)

theorem CorrectNominalPower_cases_witness:
  "CorrectNominalPower 4200 = 4.2 \<and> CorrectNominalPower 0.0042 = 4.2 \<and>
   CorrectNominalPower 4.2 = 4.2 \<and> CorrectNominalPower 100 = 100 \<and>
   CorrectNominalPower 0.05 = 0.05"
  using CorrectNominalPower_cases [of 4200] CorrectNominalPower_cases [of "0.0042"]
    CorrectNominalPower_cases [of "4.2"] CorrectNominalPower_cases [of 100]
    CorrectNominalPower_cases [of "0.05"]
  by simp

text \<open>
  Claim C2 as stated names the interval [0.05, 100] as the set of fixed points. The
  power 0 lies outside the interval and is returned unchanged (0 * 1000 = 0).
\<close>

theorem CorrectNominalPower_zero_fixed:
  "CorrectNominalPower 0 = 0 \<and> \<not> (0.05 \<le> (0::real) \<and> (0::real) \<le> 100)"
  by (simp add: CorrectNominalPower_def)

text \<open>
  Claim C4. For every power value p whose correction lies in [0.05, 100], correcting a
  second time changes nothing; 4200 is corrected to 4.2 and 0.0042 is corrected to 4.2,
  and 4.2 is stable.
\<close>

theorem CorrectNominalPower_twice:
  "(0.05 \<le> CorrectNominalPower p \<and> CorrectNominalPower p \<le> 100 \<longrightarrow>
      CorrectNominalPower (CorrectNominalPower p) = CorrectNominalPower p) \<and>
   CorrectNominalPower 4200 = 4.2 \<and>
   CorrectNominalPower 0.0042 = 4.2 \<and>
   CorrectNominalPower 4.2 = 4.2"
  by (simp add: CorrectNominalPower_def)

theorem CorrectNominalPower_twice_witness:
  "0.05 \<le> CorrectNominalPower 4200 \<and> CorrectNominalPower 4200 \<le> 100 \<and>
   CorrectNominalPower (CorrectNominalPower 4200) = CorrectNominalPower 4200 \<and>
   0.05 \<le> CorrectNominalPower 0.0042 \<and> CorrectNominalPower 0.0042 \<le> 100 \<and>
   CorrectNominalPower (CorrectNominalPower 0.0042) = CorrectNominalPower 0.0042"
proof -
  have a: "0.05 \<le> CorrectNominalPower 4200 \<and> CorrectNominalPower 4200 \<le> 100"
    by (simp add: CorrectNominalPower_def)
  have b: "0.05 \<le> CorrectNominalPower 0.0042 \<and> CorrectNominalPower 0.0042 \<le> 100"
    by (simp add: CorrectNominalPower_def)
  from a b CorrectNominalPower_twice [of 4200] CorrectNominalPower_twice [of "0.0042"]
  show ?thesis by blast
qed

section \<open>Decimal text of integers\<close>

lemma length_nat_str: "0 < length (nat_str n)"
  by (induction n rule: nat_str.induct) (subst nat_str.simps, simp)

lemma digit_char_1:
  assumes "d < 10"
  shows "digit_char d = CHR ''1'' \<longleftrightarrow> d = 1"
proof -
  have "d \<in> {0, 1, 2, 3, 4, 5, 6, 7, 8, 9}" using assms by auto
  then show ?thesis by (auto simp: digit_char_def)
qed

lemma nat_str_1: "nat_str n = ''1'' \<longleftrightarrow> n = 1"
proof (cases "n < 10")
  case True
  then show ?thesis by (subst nat_str.simps) (simp add: digit_char_1)
next
  case False
  have "length (nat_str n) \<ge> 2"
    using False length_nat_str [of "n div 10"]
    by (subst nat_str.simps) (simp add: Suc_le_eq)
  with False show ?thesis by auto
qed

lemma int_str_1: "int_str i = ''1'' \<longleftrightarrow> i = 1"
  by (auto simp: int_str_def nat_str_1)

section \<open>Properties of the operation-status rule\<close>

text \<open>
  Claim C7, as amended. Per row, the rule maps every value whose string form is "1"
  (the literal string "1" among them) to "Sim", every missing value to the text
  \<open>Sem_informacao\<close>, and leaves every other value unchanged; in particular every
  string other than "1", such as "0", passes through identically. The table keeps its
  length, its index labels and every other column.
\<close>

theorem OPERACAO_lambda_cases:
  "OPERACAO_lambda fs (StrV ''1'') = StrV ''Sim'' \<and>
   (isna x \<longrightarrow> OPERACAO_lambda fs x = StrV Sem_informacao) \<and>
   (\<not> isna x \<and> py_str fs x = ''1'' \<longrightarrow> OPERACAO_lambda fs x = StrV ''Sim'') \<and>
   (\<not> isna x \<and> py_str fs x \<noteq> ''1'' \<longrightarrow> OPERACAO_lambda fs x = x) \<and>
   (s \<noteq> ''1'' \<longrightarrow> OPERACAO_lambda fs (StrV s) = StrV s) \<and>
   OPERACAO_lambda fs (StrV ''0'') = StrV ''0'' \<and>
   length (normalize_OPERACAO fs t) = length t \<and>
   (k < length t \<longrightarrow> normalize_OPERACAO fs t ! k =
      (fst (t ! k), (snd (t ! k))\<lparr>OPERACAO := OPERACAO_lambda fs (OPERACAO (snd (t ! k)))\<rparr>))"
  by (simp add: OPERACAO_lambda_def isna_def normalize_OPERACAO_def
      normalize_OPERACAO_row_def split: prod.split)

theorem OPERACAO_lambda_cases_witness:
  "isna Null \<and> OPERACAO_lambda integral_float_str Null = StrV Sem_informacao \<and>
   \<not> isna (StrV ''1'') \<and> py_str integral_float_str (StrV ''1'') = ''1'' \<and>
   OPERACAO_lambda integral_float_str (StrV ''1'') = StrV ''Sim'' \<and>
   \<not> isna (StrV ''0'') \<and> py_str integral_float_str (StrV ''0'') \<noteq> ''1'' \<and>
   OPERACAO_lambda integral_float_str (StrV ''0'') = StrV ''0'' \<and>
   ''N'' \<noteq> ''1'' \<and> OPERACAO_lambda integral_float_str (StrV ''N'') = StrV ''N'' \<and>
   (0::nat) < length [(0::nat, add_lon_lat turbine_b)] \<and>
   normalize_OPERACAO integral_float_str [(0, add_lon_lat turbine_b)] ! 0 =
     (0, (add_lon_lat turbine_b)\<lparr>OPERACAO := StrV Sem_informacao\<rparr>)"
proof -
  have a: "isna Null" "\<not> isna (StrV ''1'')" "\<not> isna (StrV ''0'')"
    by (simp_all add: isna_def)
  have b: "py_str integral_float_str (StrV ''1'') = ''1''"
    "py_str integral_float_str (StrV ''0'') \<noteq> ''1''" "''N'' \<noteq> ''1''"
    by simp_all
  have c: "(0::nat) < length [(0::nat, add_lon_lat turbine_b)]" by simp
  have d: "OPERACAO (add_lon_lat turbine_b) = Null"
    by (simp add: add_lon_lat_def turbine_b_def feature.defs row.defs)
  from a b c d
    OPERACAO_lambda_cases [of integral_float_str Null "''N''" "[(0, add_lon_lat turbine_b)]" 0]
    OPERACAO_lambda_cases [of integral_float_str "StrV ''1''"]
    OPERACAO_lambda_cases [of integral_float_str "StrV ''0''"]
  show ?thesis by simp
qed

text \<open>
  Claim C7 as stated leaves every value other than the literal string "1" and the
  missing values unchanged. The integer 1 is neither, and the rule turns it into "Sim".
\<close>

theorem OPERACAO_lambda_integer_one:
  "\<not> isna (IntV 1) \<and> IntV 1 \<noteq> StrV ''1'' \<and>
   OPERACAO_lambda integral_float_str (IntV 1) \<noteq> IntV 1"
  by (simp add: OPERACAO_lambda_def isna_def int_str_1)

text \<open>
  Claim C9. The rule compares the string form of the value with "1": the integer 1,
  which is no string, is mapped to "Sim" (and among the integers only 1 is); the float
  1.0, whose string form is "1.0", is left unchanged; in general a value that is not
  missing is mapped to "Sim" exactly when its string form is "1" and is left unchanged
  otherwise.
\<close>

theorem OPERACAO_lambda_stringified:
  "OPERACAO_lambda fs (IntV 1) = StrV ''Sim'' \<and>
   IntV 1 \<noteq> StrV ''1'' \<and>
   OPERACAO_lambda fs (IntV i) = (if i = 1 then StrV ''Sim'' else IntV i) \<and>
   (fs 1 = ''1.0'' \<longrightarrow> OPERACAO_lambda fs (FloatV 1) = FloatV 1) \<and>
   (\<not> isna x \<longrightarrow>
      OPERACAO_lambda fs x = (if py_str fs x = ''1'' then StrV ''Sim'' else x))"
  by (simp add: OPERACAO_lambda_def isna_def int_str_1)

theorem OPERACAO_lambda_stringified_witness:
  "integral_float_str 1 = ''1.0'' \<and>
   OPERACAO_lambda integral_float_str (FloatV 1) = FloatV 1 \<and>
   \<not> isna (IntV 1) \<and> py_str integral_float_str (IntV 1) = ''1'' \<and>
   OPERACAO_lambda integral_float_str (IntV 1) = StrV ''Sim'' \<and>
   OPERACAO_lambda integral_float_str (IntV 0) = IntV 0"
proof -
  have a: "integral_float_str 1 = ''1.0''"
    by (simp add: integral_float_str_def int_str_def nat_str.simps digit_char_def)
  have b: "\<not> isna (IntV 1)" by (simp add: isna_def)
  have c: "py_str integral_float_str (IntV 1) = ''1''" by (simp add: int_str_1)
  from a b c OPERACAO_lambda_stringified [of integral_float_str 0 "IntV 1"]
  show ?thesis by simp
qed

section \<open>The batch loop cuts the id list into chunks\<close>










section \<open>The run and its requests\<close>

lemma fetch_loop_requests:
  "fetch_loop svc ids B starts gdfs = (reqs, Inr out) \<Longrightarrow>
   reqs = map (\<lambda>i. batch_params (slice ids i (i + B))) starts \<and>
   (\<exists>new. out = gdfs @ new \<and> length new = length starts)"
proof (induction starts arbitrary: gdfs reqs)
  case Nil
  then show ?case by simp
next
  case (Cons i rest)
  from Cons.prems obtain g reqs' where
    g: "FetchObjectsBatch svc (slice ids i (i + B)) = Inr g" and
    r: "fetch_loop svc ids B rest (gdfs @ [g]) = (reqs', Inr out)" and
    q: "reqs = batch_params (slice ids i (i + B)) # reqs'"
    by (auto simp add: Let_def split: sum.splits prod.splits)
  from Cons.IH [OF r] q show ?case by auto
qed

lemma main_Inr:
  assumes "main fs svc = (reqs, Inr out)"
  shows "\<exists>ids gdfs. FetchAllIds svc = Inr (JIds ids) \<and>
     reqs = ids_params # map batch_params (batches batch_size ids) \<and>
     length gdfs = length (batches batch_size ids) \<and> gdfs \<noteq> [] \<and>
     out = corrections fs (with_coordinates (enumerate 0 (concat gdfs)))"
proof -
  from assms obtain ids reqs' gdfs total where
    a: "FetchAllIds svc = Inr (JIds ids)" and
    b: "fetch_loop svc ids batch_size (range_from 0 (length ids) batch_size) [] = (reqs', Inr gdfs)" and
    c: "concat_ignore_index gdfs = Inr total" and
    d: "reqs = ids_params # reqs'" "out = corrections fs (with_coordinates total)"
    by (auto simp add: main_def py_range_def batch_size_def
        split: sum.splits jval.splits prod.splits if_splits)
  from fetch_loop_requests [OF b] have
    e: "reqs' = map batch_params (batches batch_size ids)" "length gdfs = length (batches batch_size ids)"
    by (auto simp add: batches_def comp_def)
  from c have f: "gdfs \<noteq> []" "total = enumerate 0 (concat gdfs)"
    by (auto simp add: concat_ignore_index_def split: if_splits)
  from a d e f show ?thesis by blast
qed


lemmas run_eval = main_def FetchAllIds_def sample_service_def ids_params_def batch_params_def
  py_range_def batch_size_def range_from.simps slice_def FetchObjectsBatch_def
  raise_for_status_def read_file_def concat_ignore_index_def has_column_def

lemmas rules_eval = with_coordinates_def add_lon_lat_def turbine_a_def turbine_b_def
  turbine_c_def
  corrections_def exclude_rows_def fix_Asa_Branca_def fix_Barra_def set_UF_def set_UF_row_def
  correct_power_def correct_power_row_def normalize_OPERACAO_def normalize_OPERACAO_row_def
  OPERACAO_lambda_def isna_def drop_duplicates_def keep_unmarked_def subset_key_def
  Serra_de_def Serra_do_def CorrectNominalPower_def feature.defs row.defs

lemmas str_eval = int_str_def nat_str.simps digit_char_def where_condition_def

lemma sample_run:
  "has_column ''DATA_ATUALIZACAO'' (enumerate 0 fl) \<Longrightarrow>
   main fs (sample_service 200 fl) =
     ([ids_params, batch_params [1, 2]],
      Inr (corrections fs (with_coordinates (enumerate 0 fl))))"
  by (simp add: main_def FetchAllIds_def sample_service_def ids_params_def batch_params_def
      py_range_def batch_size_def range_from.simps slice_def FetchObjectsBatch_def
      raise_for_status_def read_file_def concat_ignore_index_def)

lemma sample_columns:
  "has_column ''DATA_ATUALIZACAO'' (enumerate 0 (turbine_a # fl))"
  "has_column ''DATA_ATUALIZACAO'' (enumerate 0 (turbine_b # fl))"
  by (simp_all add: has_column_def turbine_a_def turbine_b_def)

lemma empty_collection_run:
  "main fs (sample_service 200 []) = ([ids_params, batch_params [1, 2]], Inl KeyError)"
  by (simp add: run_eval)



text \<open>
  Claim C3 at a failing input. The service answers the id query with the status 500 and
  a JSON body that holds \<^verbatim>\<open>objectIds\<close>: the status is not looked at, the ids are
  returned, the batch request is issued and the run ends as it does under the status
  200. The batch fetch does raise on the status 500.
\<close>

theorem FetchAllIds_status_ignored:
  "FetchAllIds (sample_service 500 [turbine_a, turbine_b]) = Inr (JIds [1, 2]) \<and>
   main integral_float_str (sample_service 500 [turbine_a, turbine_b]) =
     ([ids_params, batch_params [1, 2]],
      Inr (corrections integral_float_str
             (with_coordinates (enumerate 0 [turbine_a, turbine_b])))) \<and>
   FetchObjectsBatch
     (\<lambda>p. Inr \<lparr>status_code = 500, payload = FeatureCollection [turbine_a]\<rparr>) [1, 2]
     = Inl HTTPError"
  by (simp add: run_eval turbine_a_def turbine_b_def)

section \<open>Deduplication\<close>

lemma keep_unmarked_Nil [simp]: "keep_unmarked seen [] = []"
  by (simp add: keep_unmarked_def)

lemma keep_unmarked_Cons:
  "keep_unmarked seen (x # t) =
     (if subset_key (snd x) \<in> set seen then keep_unmarked (subset_key (snd x) # seen) t
      else x # keep_unmarked (subset_key (snd x) # seen) t)"
  by (cases x) (simp add: keep_unmarked_def)

lemma keep_unmarked_cong:
  "set s1 = set s2 \<Longrightarrow> keep_unmarked s1 t = keep_unmarked s2 t"
  by (induction t arbitrary: s1 s2) (simp_all add: keep_unmarked_Cons)

lemma keep_unmarked_filter:
  "keep_unmarked (a @ s) t = filter (\<lambda>y. subset_key (snd y) \<notin> set a) (keep_unmarked s t)"
proof (induction t arbitrary: s)
  case Nil
  show ?case by simp
next
  case (Cons x t)
  have "keep_unmarked (subset_key (snd x) # a @ s) t = keep_unmarked (a @ subset_key (snd x) # s) t"
    by (rule keep_unmarked_cong) auto
  with Cons [of "subset_key (snd x) # s"] show ?case
    by (simp add: keep_unmarked_Cons)
qed

lemma keep_unmarked_append:
  "keep_unmarked s (p @ q) =
     keep_unmarked s p @ keep_unmarked (rev (map (\<lambda>y. subset_key (snd y)) p) @ s) q"
  by (induction p arbitrary: s) (simp_all add: keep_unmarked_Cons)

lemma keep_unmarked_subseq: "subseq (keep_unmarked s t) t"
  by (induction t arbitrary: s) (auto simp add: keep_unmarked_Cons intro: list_emb.intros)

lemma keep_unmarked_keys:
  "(\<lambda>y. subset_key (snd y)) ` set (keep_unmarked s t) = (\<lambda>y. subset_key (snd y)) ` set t - set s"
  by (induction t arbitrary: s) (auto simp add: keep_unmarked_Cons)


lemma drop_duplicates_split:
  "drop_duplicates (pre @ x # post) =
     drop_duplicates pre
     @ (if subset_key (snd x) \<in> (\<lambda>y. subset_key (snd y)) ` set pre then [] else [x])
     @ filter (\<lambda>y. subset_key (snd y) \<notin> (\<lambda>y. subset_key (snd y)) ` set (pre @ [x]))
         (drop_duplicates post)"
proof -
  let ?k = "\<lambda>y. subset_key (snd y)"
  let ?s = "rev (map ?k pre) @ []"
  have 1: "keep_unmarked [] (pre @ x # post) = keep_unmarked [] pre @ keep_unmarked ?s (x # post)"
    by (rule keep_unmarked_append)
  have 2: "keep_unmarked ?s (x # post) =
      (if ?k x \<in> set ?s then [] else [x]) @ keep_unmarked (?k x # ?s) post"
    by (simp add: keep_unmarked_Cons)
  have 3: "keep_unmarked ((?k x # ?s) @ []) post =
      filter (\<lambda>y. ?k y \<notin> set (?k x # ?s)) (keep_unmarked [] post)"
    by (rule keep_unmarked_filter)
  have 4: "set (?k x # ?s) = ?k ` set (pre @ [x])" "set ?s = ?k ` set pre"
    by auto
  from 3 have 5: "keep_unmarked (?k x # ?s) post =
      filter (\<lambda>y. ?k y \<notin> ?k ` set (pre @ [x])) (keep_unmarked [] post)"
    unfolding 4 by simp
  show ?thesis
    unfolding drop_duplicates_def 1 2 5 4 by simp
qed


lemma drop_duplicates_keys:
  "(\<lambda>y. subset_key (snd y)) ` set (drop_duplicates t) = (\<lambda>y. subset_key (snd y)) ` set t"
  unfolding drop_duplicates_def keep_unmarked_keys by simp



section \<open>The rules commute\<close>

lemma keep_unmarked_map:
  assumes "\<And>r. subset_key (f r) = subset_key r"
  shows "keep_unmarked s (map (\<lambda>(i, r). (i, f r)) t) = map (\<lambda>(i, r). (i, f r)) (keep_unmarked s t)"
  by (induction t arbitrary: s) (auto simp add: keep_unmarked_Cons assms split: prod.splits)

lemma drop_duplicates_map:
  assumes "\<And>r. subset_key (f r) = subset_key r"
  shows "drop_duplicates (map (\<lambda>(i, r). (i, f r)) t) = map (\<lambda>(i, r). (i, f r)) (drop_duplicates t)"
  unfolding drop_duplicates_def using assms by (rule keep_unmarked_map)

lemma exclude_rows_map:
  assumes "\<And>r. NOME_EOL (f r) = NOME_EOL r"
  shows "exclude_rows (map (\<lambda>(i, r). (i, f r)) t) = map (\<lambda>(i, r). (i, f r)) (exclude_rows t)"
  by (induction t) (auto simp add: exclude_rows_def assms)

lemma map_rows_commute:
  assumes "\<And>r. f (g r) = g (f r)"
  shows "map (\<lambda>(i, r). (i, f r)) (map (\<lambda>(i, r). (i, g r)) t) =
         map (\<lambda>(i, r). (i, g r)) (map (\<lambda>(i, r). (i, f r)) t)"
  by (induction t) (auto simp add: assms)

lemma exclude_rows_keep_unmarked:
  "keep_unmarked s (exclude_rows t) = exclude_rows (keep_unmarked s t)"
proof (induction t arbitrary: s)
  case Nil
  show ?case by (simp add: exclude_rows_def)
next
  case (Cons x t)
  show ?case
  proof (cases "NOME_EOL (snd x) = StrV Serra_de")
    case False
    then have "exclude_rows (x # t) = x # exclude_rows t"
      by (cases x) (simp add: exclude_rows_def)
    moreover have "exclude_rows (x # u) = x # exclude_rows u" for u
      using False by (cases x) (simp add: exclude_rows_def)
    ultimately show ?thesis
      using Cons by (simp add: keep_unmarked_Cons)
  next
    case True
    then have e: "exclude_rows (x # u) = exclude_rows u" for u
      by (cases x) (simp add: exclude_rows_def)
    have "keep_unmarked ([subset_key (snd x)] @ s) t =
          filter (\<lambda>y. subset_key (snd y) \<notin> set [subset_key (snd x)]) (keep_unmarked s t)"
      by (rule keep_unmarked_filter)
    then have "exclude_rows (keep_unmarked (subset_key (snd x) # s) t) =
          exclude_rows (keep_unmarked s t)"
      using True
      by (auto simp add: exclude_rows_def subset_key_def intro!: filter_cong)
    then show ?thesis
      using Cons by (simp add: keep_unmarked_Cons e)
  qed
qed

lemma exclude_rows_drop_duplicates:
  "drop_duplicates (exclude_rows t) = exclude_rows (drop_duplicates t)"
  unfolding drop_duplicates_def by (rule exclude_rows_keep_unmarked)


lemma row_rules_keep_key:
  "subset_key (set_UF_row n u r) = subset_key r"
  "subset_key (correct_power_row r) = subset_key r"
  "subset_key (normalize_OPERACAO_row fs r) = subset_key r"
  "NOME_EOL (set_UF_row n u r) = NOME_EOL r"
  "NOME_EOL (correct_power_row r) = NOME_EOL r"
  "NOME_EOL (normalize_OPERACAO_row fs r) = NOME_EOL r"
  by (simp_all add: set_UF_row_def correct_power_row_def normalize_OPERACAO_row_def
      subset_key_def)

lemmas table_rules = fix_Asa_Branca_def fix_Barra_def set_UF_def correct_power_def
  normalize_OPERACAO_def

text \<open>
  Claim C8. Any two of the six correction rules (row exclusion, the two state-code
  overrides, power correction, operation-status normalization, deduplication) give the
  same table in either order, for every table.
\<close>

theorem rules_commute:
  "exclude_rows (fix_Asa_Branca t) = fix_Asa_Branca (exclude_rows t) \<and>
   exclude_rows (fix_Barra t) = fix_Barra (exclude_rows t) \<and>
   exclude_rows (correct_power t) = correct_power (exclude_rows t) \<and>
   exclude_rows (normalize_OPERACAO fs t) = normalize_OPERACAO fs (exclude_rows t) \<and>
   exclude_rows (drop_duplicates t) = drop_duplicates (exclude_rows t) \<and>
   fix_Asa_Branca (fix_Barra t) = fix_Barra (fix_Asa_Branca t) \<and>
   fix_Asa_Branca (correct_power t) = correct_power (fix_Asa_Branca t) \<and>
   fix_Asa_Branca (normalize_OPERACAO fs t) = normalize_OPERACAO fs (fix_Asa_Branca t) \<and>
   fix_Asa_Branca (drop_duplicates t) = drop_duplicates (fix_Asa_Branca t) \<and>
   fix_Barra (correct_power t) = correct_power (fix_Barra t) \<and>
   fix_Barra (normalize_OPERACAO fs t) = normalize_OPERACAO fs (fix_Barra t) \<and>
   fix_Barra (drop_duplicates t) = drop_duplicates (fix_Barra t) \<and>
   correct_power (normalize_OPERACAO fs t) = normalize_OPERACAO fs (correct_power t) \<and>
   correct_power (drop_duplicates t) = drop_duplicates (correct_power t) \<and>
   normalize_OPERACAO fs (drop_duplicates t) = drop_duplicates (normalize_OPERACAO fs t)"
proof (intro conjI)
  show "exclude_rows (drop_duplicates t) = drop_duplicates (exclude_rows t)"
    by (simp add: exclude_rows_drop_duplicates)
  show "fix_Asa_Branca (fix_Barra t) = fix_Barra (fix_Asa_Branca t)"
    unfolding table_rules by (rule map_rows_commute) (simp add: set_UF_row_def)
  show "fix_Asa_Branca (correct_power t) = correct_power (fix_Asa_Branca t)"
    unfolding table_rules
    by (rule map_rows_commute) (simp add: set_UF_row_def correct_power_row_def)
  show "fix_Asa_Branca (normalize_OPERACAO fs t) = normalize_OPERACAO fs (fix_Asa_Branca t)"
    unfolding table_rules
    by (rule map_rows_commute) (simp add: set_UF_row_def normalize_OPERACAO_row_def)
  show "fix_Barra (correct_power t) = correct_power (fix_Barra t)"
    unfolding table_rules
    by (rule map_rows_commute) (simp add: set_UF_row_def correct_power_row_def)
  show "fix_Barra (normalize_OPERACAO fs t) = normalize_OPERACAO fs (fix_Barra t)"
    unfolding table_rules
    by (rule map_rows_commute) (simp add: set_UF_row_def normalize_OPERACAO_row_def)
  show "correct_power (normalize_OPERACAO fs t) = normalize_OPERACAO fs (correct_power t)"
    unfolding table_rules
    by (rule map_rows_commute) (simp add: correct_power_row_def normalize_OPERACAO_row_def)
qed (simp_all only: table_rules exclude_rows_map drop_duplicates_map row_rules_keep_key)

section \<open>The corrected table\<close>

lemma rewrite_row_key: "subset_key (rewrite_row fs r) = subset_key r" "NOME_EOL (rewrite_row fs r) = NOME_EOL r"
  by (simp_all add: rewrite_row_def row_rules_keep_key)

lemma corrections_alt:
  "corrections fs t = map (\<lambda>(i, r). (i, rewrite_row fs r)) (exclude_rows (drop_duplicates t))"
proof -
  have "corrections fs t = drop_duplicates (map (\<lambda>(i, r). (i, rewrite_row fs r)) (exclude_rows t))"
    by (simp add: corrections_def table_rules rewrite_row_def comp_def case_prod_unfold)
  also have "\<dots> = map (\<lambda>(i, r). (i, rewrite_row fs r)) (drop_duplicates (exclude_rows t))"
    by (rule drop_duplicates_map) (rule rewrite_row_key)
  finally show ?thesis by (simp add: exclude_rows_drop_duplicates)
qed

lemma corrections_no_Serra_de:
  "(i, r) \<in> set (corrections fs t) \<Longrightarrow> NOME_EOL r \<noteq> StrV Serra_de"
  by (auto simp add: corrections_alt exclude_rows_def rewrite_row_key)

lemma Serra_names: "StrV Serra_do \<noteq> StrV Serra_de" "Serra_do \<noteq> ''Asa Branca III''" "Serra_do \<noteq> ''Barra XI''"
  by (simp_all add: Serra_do_def Serra_de_def)

lemma exclude_rows_keeps_Serra_do:
  "filter (\<lambda>(i, r). NOME_EOL r = StrV Serra_do) (exclude_rows t) =
   filter (\<lambda>(i, r). NOME_EOL r = StrV Serra_do) t"
  using Serra_names(1) by (induction t) (auto simp add: exclude_rows_def)

lemma Serra_do_key_survives:
  assumes "(i, r) \<in> set t" "NOME_EOL r = StrV Serra_do"
  shows "\<exists>(j, r') \<in> set (corrections fs t). subset_key r' = subset_key r"
proof -
  from assms(1) have "subset_key r \<in> (\<lambda>y. subset_key (snd y)) ` set (drop_duplicates t)"
    unfolding drop_duplicates_keys by force
  then obtain j r0 where j: "(j, r0) \<in> set (drop_duplicates t)" "subset_key r0 = subset_key r"
    by auto
  from j(2) assms(2) have "NOME_EOL r0 \<noteq> StrV Serra_de"
    using Serra_names(1) by (simp add: subset_key_def)
  with j(1) have "(j, r0) \<in> set (exclude_rows (drop_duplicates t))"
    by (simp add: exclude_rows_def)
  then have "(j, rewrite_row fs r0) \<in> set (corrections fs t)"
    unfolding corrections_alt by force
  with j(2) show ?thesis
    by (intro bexI [of _ "(j, rewrite_row fs r0)"]) (simp_all add: rewrite_row_key)
qed

lemma Serra_do_first_survives:
  assumes "NOME_EOL r = StrV Serra_do"
    "subset_key r \<notin> (\<lambda>y. subset_key (snd y)) ` set pre"
  shows "(i, r\<lparr>OPERACAO := OPERACAO_lambda fs (OPERACAO r),
                POT_MW := map_option CorrectNominalPower (POT_MW r)\<rparr>)
         \<in> set (corrections fs (pre @ (i, r) # post))"
proof -
  have "(i, r) \<in> set (drop_duplicates (pre @ (i, r) # post))"
    unfolding drop_duplicates_split using assms(2) by simp
  with assms(1) have "(i, r) \<in> set (exclude_rows (drop_duplicates (pre @ (i, r) # post)))"
    using Serra_names(1) by (simp add: exclude_rows_def)
  then have "(i, rewrite_row fs r) \<in> set (corrections fs (pre @ (i, r) # post))"
    unfolding corrections_alt by force
  moreover have "rewrite_row fs r = r\<lparr>OPERACAO := OPERACAO_lambda fs (OPERACAO r),
                POT_MW := map_option CorrectNominalPower (POT_MW r)\<rparr>"
    using assms(1) Serra_names(2,3)
    by (simp add: rewrite_row_def set_UF_row_def correct_power_row_def normalize_OPERACAO_row_def)
  ultimately show ?thesis by simp
qed

lemma corrections_labels:
  "subseq (corrections fs t) (map (\<lambda>(i, r). (i, rewrite_row fs r)) t)"
proof -
  have "subseq (exclude_rows (drop_duplicates t)) (drop_duplicates t)"
    by (simp add: exclude_rows_def)
  moreover have "subseq (drop_duplicates t) t"
    unfolding drop_duplicates_def by (rule keep_unmarked_subseq)
  ultimately have "subseq (exclude_rows (drop_duplicates t)) t"
    by (rule subseq_order.order_trans)
  then show ?thesis unfolding corrections_alt by (rule subseq_map)
qed

lemma map_fst_rows: "map fst (map (\<lambda>(i, r). (i, f r)) t) = map fst t"
  by (induction t) auto

lemma corrections_fst: "subseq (map fst (corrections fs t)) (map fst t)"
  using subseq_map [OF corrections_labels, of fst fs t] unfolding map_fst_rows .

lemma downward_closed:
  assumes "finite S" "\<And>i j. i \<in> S \<Longrightarrow> j < i \<Longrightarrow> j \<in> S"
  shows "S = {0..<card S}"
proof -
  have "S \<subseteq> {0..<card S}"
  proof
    fix m assume m: "m \<in> S"
    then have "{0..m} \<subseteq> S" using assms(2) by (auto simp: le_less)
    then have "card {0..m} \<le> card S" using assms(1) by (rule card_mono [rotated])
    then show "m \<in> {0..<card S}" by simp
  qed
  moreover have "card {0..<card S} = card S" by simp
  ultimately show ?thesis using assms(1)
    by (metis card_subset_eq finite_atLeastLessThan)
qed

lemma labels_contiguous_iff:
  assumes "subseq xs [0..<n]"
  shows "xs = [0..<length xs] \<longleftrightarrow> (\<forall>i \<in> set xs. \<forall>j < i. j \<in> set xs)"
proof
  assume "xs = [0..<length xs]"
  then have "set xs = {0..<length xs}" by (metis atLeastLessThan_upt)
  then show "\<forall>i \<in> set xs. \<forall>j < i. j \<in> set xs" by auto
next
  assume dc: "\<forall>i \<in> set xs. \<forall>j < i. j \<in> set xs"
  from assms obtain N where "xs = nths [0..<n] N"
    unfolding subseq_conv_nths by blast
  then have s: "sorted xs" "distinct xs"
    by (simp_all add: sorted_nths)
  have "set xs = {0..<card (set xs)}"
    using dc by (intro downward_closed) auto
  with s(2) have "set xs = set [0..<length xs]"
    by (simp add: distinct_card)
  with s show "xs = [0..<length xs]"
    by (intro sorted_distinct_set_unique) simp_all
qed

lemma drop_duplicates_later_duplicate:
  assumes "subset_key (snd x) \<in> (\<lambda>y. subset_key (snd y)) ` set pre"
  shows "drop_duplicates (pre @ x # post) = drop_duplicates (pre @ post)"
proof -
  let ?k = "\<lambda>y. subset_key (snd y)"
  let ?s = "rev (map ?k pre) @ []"
  have m: "?k x \<in> set ?s" using assms by auto
  have "keep_unmarked ?s (x # post) = keep_unmarked (?k x # ?s) post"
    using m by (simp only: keep_unmarked_Cons if_True)
  also have "\<dots> = keep_unmarked ?s post"
  proof (rule keep_unmarked_cong)
    from m show "set (?k x # ?s) = set ?s"
      by (simp only: list.set insert_absorb)
  qed
  finally show ?thesis
    unfolding drop_duplicates_def keep_unmarked_append [of "[]" pre] by simp
qed

lemma corrections_later_duplicate:
  assumes "subset_key r \<in> (\<lambda>y. subset_key (snd y)) ` set pre"
  shows "corrections fs (pre @ (i, r) # post) = corrections fs (pre @ post)"
  unfolding corrections_alt using drop_duplicates_later_duplicate [of "(i, r)" pre post] assms
  by simp

text \<open>
  Claim C6, as amended. No row of the corrected table, hence of the output of a run, is
  named "Serra de Gentio do Ouro XXIII". The exclusion rule leaves every row named
  "Serra do Gentio do Ouro XXIII" where it is, untouched. Such a row of the input is
  present in the output, under its own label, with its power corrected and its
  operation status normalized and every other field as in the input, when no row before
  it has its name, designation and coordinates; when a row before it has them, the
  output is the one of the table without it, and a row kept with that name, designation
  and coordinates stands for it.
\<close>

theorem Serra_rows:
  "(\<forall>(i, r) \<in> set (corrections fs t). NOME_EOL r \<noteq> StrV Serra_de) \<and>
   (main fs svc = (reqs, Inr out) \<longrightarrow> (\<forall>(i, r) \<in> set out. NOME_EOL r \<noteq> StrV Serra_de)) \<and>
   filter (\<lambda>(i, r). NOME_EOL r = StrV Serra_do) (exclude_rows t) =
     filter (\<lambda>(i, r). NOME_EOL r = StrV Serra_do) t \<and>
   (\<forall>(i, r) \<in> set t. NOME_EOL r = StrV Serra_do \<longrightarrow>
      (\<exists>(j, r') \<in> set (corrections fs t). subset_key r' = subset_key r)) \<and>
   (NOME_EOL r = StrV Serra_do \<and> subset_key r \<notin> (\<lambda>y. subset_key (snd y)) ` set pre \<longrightarrow>
      (i, r\<lparr>OPERACAO := OPERACAO_lambda fs (OPERACAO r),
             POT_MW := map_option CorrectNominalPower (POT_MW r)\<rparr>)
        \<in> set (corrections fs (pre @ (i, r) # post))) \<and>
   (subset_key r \<in> (\<lambda>y. subset_key (snd y)) ` set pre \<longrightarrow>
      corrections fs (pre @ (i, r) # post) = corrections fs (pre @ post))"
proof (intro conjI impI ballI)
  show "case x of (i, r) \<Rightarrow> NOME_EOL r \<noteq> StrV Serra_de" if "x \<in> set (corrections fs t)" for x
    using that corrections_no_Serra_de [of "fst x" "snd x" fs t] by (simp add: case_prod_unfold)
  show "case x of (i, r) \<Rightarrow> NOME_EOL r \<noteq> StrV Serra_de"
    if "main fs svc = (reqs, Inr out)" "x \<in> set out" for x
  proof -
    from main_Inr [OF that(1)] obtain total where "out = corrections fs total" by blast
    with that(2) corrections_no_Serra_de [of "fst x" "snd x" fs total] show ?thesis
      by (simp add: case_prod_unfold)
  qed
  show "filter (\<lambda>(i, r). NOME_EOL r = StrV Serra_do) (exclude_rows t) =
     filter (\<lambda>(i, r). NOME_EOL r = StrV Serra_do) t"
    by (rule exclude_rows_keeps_Serra_do)
  show "case x of (i, r) \<Rightarrow> NOME_EOL r = StrV Serra_do \<longrightarrow>
      (\<exists>(j, r') \<in> set (corrections fs t). subset_key r' = subset_key r)"
    if "x \<in> set t" for x
    using that Serra_do_key_survives [of "fst x" "snd x" t fs] by (simp add: case_prod_unfold)
  show "(i, r\<lparr>OPERACAO := OPERACAO_lambda fs (OPERACAO r),
             POT_MW := map_option CorrectNominalPower (POT_MW r)\<rparr>)
        \<in> set (corrections fs (pre @ (i, r) # post))"
    if "NOME_EOL r = StrV Serra_do \<and> subset_key r \<notin> (\<lambda>y. subset_key (snd y)) ` set pre"
    using that Serra_do_first_survives by blast
  show "corrections fs (pre @ (i, r) # post) = corrections fs (pre @ post)"
    if "subset_key r \<in> (\<lambda>y. subset_key (snd y)) ` set pre"
    using that by (rule corrections_later_duplicate)
qed

theorem Serra_rows_witness:
  "corrections integral_float_str (with_coordinates (enumerate 0 [turbine_b, turbine_c, turbine_b])) =
     [(0, (add_lon_lat turbine_b)\<lparr>OPERACAO := StrV Sem_informacao, POT_MW := Some 4.2\<rparr>)] \<and>
   NOME_EOL ((add_lon_lat turbine_b)\<lparr>OPERACAO := StrV Sem_informacao, POT_MW := Some 4.2\<rparr>)
     \<noteq> StrV Serra_de \<and>
   main integral_float_str (sample_service 200 [turbine_b, turbine_c, turbine_b]) =
     ([ids_params, batch_params [1, 2]],
      Inr (corrections integral_float_str
             (with_coordinates (enumerate 0 [turbine_b, turbine_c, turbine_b])))) \<and>
   (2, add_lon_lat turbine_b) \<in> set (with_coordinates (enumerate 0 [turbine_b, turbine_c, turbine_b])) \<and>
   NOME_EOL (add_lon_lat turbine_b) = StrV Serra_do \<and>
   (\<exists>(j, r') \<in> set (corrections integral_float_str
        (with_coordinates (enumerate 0 [turbine_b, turbine_c, turbine_b]))).
      subset_key r' = subset_key (add_lon_lat turbine_b)) \<and>
   subset_key (add_lon_lat turbine_b) \<notin> (\<lambda>y. subset_key (snd y)) ` set ([] :: table) \<and>
   (0, (add_lon_lat turbine_b)\<lparr>OPERACAO := OPERACAO_lambda integral_float_str
          (OPERACAO (add_lon_lat turbine_b)),
        POT_MW := map_option CorrectNominalPower (POT_MW (add_lon_lat turbine_b))\<rparr>)
     \<in> set (corrections integral_float_str
         ([] @ (0, add_lon_lat turbine_b) # [(1, add_lon_lat turbine_c), (2, add_lon_lat turbine_b)])) \<and>
   subset_key (add_lon_lat (turbine_b\<lparr>UF := StrV ''PI''\<rparr>))
     \<in> (\<lambda>y. subset_key (snd y)) ` set [(0::nat, add_lon_lat turbine_b)] \<and>
   corrections integral_float_str
       ([(0, add_lon_lat turbine_b)] @ (1, add_lon_lat (turbine_b\<lparr>UF := StrV ''PI''\<rparr>)) # []) =
     corrections integral_float_str ([(0, add_lon_lat turbine_b)] @ [])"
proof -
  let ?fl = "[turbine_b, turbine_c, turbine_b]"
  let ?t = "with_coordinates (enumerate 0 ?fl)"
  let ?b = "add_lon_lat turbine_b"
  let ?out = "[(0::nat, ?b\<lparr>OPERACAO := StrV Sem_informacao, POT_MW := Some 4.2\<rparr>)]"
  note w = Serra_rows [of integral_float_str ?t "sample_service 200 ?fl"
      "[ids_params, batch_params [1, 2]]" "corrections integral_float_str ?t"
      ?b "[]" 0 "[(1, add_lon_lat turbine_c), (2, add_lon_lat turbine_b)]"]
  have e: "corrections integral_float_str ?t = ?out"
    by (simp add: rules_eval)
  have m: "main integral_float_str (sample_service 200 ?fl) =
     ([ids_params, batch_params [1, 2]], Inr (corrections integral_float_str ?t))"
    by (rule sample_run) (rule sample_columns)
  have i: "(2, ?b) \<in> set ?t" by (simp add: with_coordinates_def)
  have n: "NOME_EOL ?b = StrV Serra_do"
    by (simp add: add_lon_lat_def turbine_b_def feature.defs row.defs)
  have k: "subset_key ?b \<notin> (\<lambda>y. subset_key (snd y)) ` set ([] :: table)" by simp
  from w have 1: "\<forall>(i, r) \<in> set (corrections integral_float_str ?t). NOME_EOL r \<noteq> StrV Serra_de"
    by (elim conjE) assumption
  from 1 have 2: "NOME_EOL (?b\<lparr>OPERACAO := StrV Sem_informacao, POT_MW := Some 4.2\<rparr>) \<noteq> StrV Serra_de"
    unfolding e by simp
  from w have 3: "\<forall>(i, r) \<in> set ?t. NOME_EOL r = StrV Serra_do \<longrightarrow>
      (\<exists>(j, r') \<in> set (corrections integral_float_str ?t). subset_key r' = subset_key r)"
    by (elim conjE) assumption
  from 3 i n have 4: "\<exists>(j, r') \<in> set (corrections integral_float_str ?t).
      subset_key r' = subset_key ?b"
    by (elim ballE [of _ _ "(2, ?b)"]) simp_all
  from w have 5: "NOME_EOL ?b = StrV Serra_do \<and>
      subset_key ?b \<notin> (\<lambda>y. subset_key (snd y)) ` set ([] :: table) \<longrightarrow>
      (0, ?b\<lparr>OPERACAO := OPERACAO_lambda integral_float_str (OPERACAO ?b),
             POT_MW := map_option CorrectNominalPower (POT_MW ?b)\<rparr>)
        \<in> set (corrections integral_float_str
         ([] @ (0, ?b) # [(1, add_lon_lat turbine_c), (2, add_lon_lat turbine_b)]))"
    by (elim conjE) assumption
  from 5 n k have 6: "(0, ?b\<lparr>OPERACAO := OPERACAO_lambda integral_float_str (OPERACAO ?b),
             POT_MW := map_option CorrectNominalPower (POT_MW ?b)\<rparr>)
        \<in> set (corrections integral_float_str
         ([] @ (0, ?b) # [(1, add_lon_lat turbine_c), (2, add_lon_lat turbine_b)]))"
    by (elim impE) (intro conjI, assumption+)
  let ?d = "add_lon_lat (turbine_b\<lparr>UF := StrV ''PI''\<rparr>)"
  note v = Serra_rows [of integral_float_str ?t "sample_service 200 ?fl"
      "[ids_params, batch_params [1, 2]]" "corrections integral_float_str ?t"
      ?d "[(0, ?b)]" 1 "[]"]
  have d: "subset_key ?d \<in> (\<lambda>y. subset_key (snd y)) ` set [(0::nat, ?b)]"
    by (simp add: subset_key_def add_lon_lat_def feature.defs row.defs)
  from v have 7: "subset_key ?d \<in> (\<lambda>y. subset_key (snd y)) ` set [(0::nat, ?b)] \<longrightarrow>
      corrections integral_float_str ([(0, ?b)] @ (1, ?d) # []) =
      corrections integral_float_str ([(0, ?b)] @ [])"
    by (elim conjE) assumption
  from 7 d have 8: "corrections integral_float_str ([(0, ?b)] @ (1, ?d) # []) =
      corrections integral_float_str ([(0, ?b)] @ [])"
    by (rule mp)
  from e 2 m i n 4 k 6 d 8 show ?thesis
    by (intro conjI)
qed

text \<open>
  Claim C6 as stated has every input row named "Serra do Gentio do Ouro XXIII" present
  in the output. The service returns two such rows with the same designation and
  coordinates and different state codes: the second is removed as a duplicate, and the
  one row written is the first, with the state code of the first.
\<close>

theorem later_Serra_do_duplicate_removed:
  "NOME_EOL (turbine_b\<lparr>UF := StrV ''PI''\<rparr>) = StrV Serra_do \<and>
   main integral_float_str (sample_service 200 [turbine_b, turbine_b\<lparr>UF := StrV ''PI''\<rparr>]) =
     ([ids_params, batch_params [1, 2]],
      Inr [(0, (add_lon_lat turbine_b)\<lparr>OPERACAO := StrV Sem_informacao, POT_MW := Some 4.2\<rparr>)]) \<and>
   UF ((add_lon_lat turbine_b)\<lparr>OPERACAO := StrV Sem_informacao, POT_MW := Some 4.2\<rparr>) = StrV ''BA'' \<and>
   UF (turbine_b\<lparr>UF := StrV ''PI''\<rparr>) = StrV ''PI''"
  by (simp add: run_eval rules_eval)

text \<open>
  Claim C10, as amended. The rules that remove rows do not renumber the table, and the
  index is not reset before writing: the output is the stacked table with its labels
  0, 1, 2, ..., its cells rewritten, and some rows left out, so every surviving row
  carries the label it had before the corrections and the labels of the output are an
  increasing selection of those. The labels have a gap exactly when a removed row stood
  before a surviving row; when only trailing rows are removed they are still
  0, ..., m - 1.
\<close>

theorem index_labels_kept:
  assumes "out = corrections fs (with_coordinates (enumerate 0 fl))"
  shows "subseq out (map (\<lambda>(i, r). (i, rewrite_row fs r)) (with_coordinates (enumerate 0 fl))) \<and>
    map fst (with_coordinates (enumerate 0 fl)) = [0..<length fl] \<and>
    subseq (map fst out) [0..<length fl] \<and>
    (map fst out \<noteq> [0..<length out] \<longleftrightarrow>
       (\<exists>i \<in> set (map fst out). \<exists>j < i. j \<notin> set (map fst out))) \<and>
    (main fs svc = (reqs, Inr written) \<longrightarrow>
       (\<exists>gdfs. written = corrections fs (with_coordinates (enumerate 0 (concat gdfs)))))"
proof (intro conjI impI)
  let ?t = "with_coordinates (enumerate 0 fl)"
  show "subseq out (map (\<lambda>(i, r). (i, rewrite_row fs r)) ?t)"
    unfolding assms by (rule corrections_labels)
  have "map fst ?t = map fst (enumerate 0 fl)"
    unfolding with_coordinates_def by (rule map_fst_rows)
  then show l: "map fst ?t = [0..<length fl]"
    by simp
  show s: "subseq (map fst out) [0..<length fl]"
    using corrections_fst [of fs ?t] unfolding assms l .
  show "map fst out \<noteq> [0..<length out] \<longleftrightarrow>
       (\<exists>i \<in> set (map fst out). \<exists>j < i. j \<notin> set (map fst out))"
    using labels_contiguous_iff [OF s] by auto
  show "\<exists>gdfs. written = corrections fs (with_coordinates (enumerate 0 (concat gdfs)))"
    if "main fs svc = (reqs, Inr written)"
    using main_Inr [OF that] by blast
qed

theorem index_labels_kept_witness:
  "map fst (corrections integral_float_str
      (with_coordinates (enumerate 0 [turbine_a, turbine_a, turbine_b]))) = [0, 2] \<and>
   subseq [0, 2] [0..<length [turbine_a, turbine_a, turbine_b]] \<and>
   (2::nat) \<in> set [0, 2] \<and> (1::nat) < 2 \<and> (1::nat) \<notin> set [0, 2] \<and>
   [0, 2] \<noteq> [0..<length [0::nat, 2]] \<and>
   (\<exists>gdfs. corrections integral_float_str
        (with_coordinates (enumerate 0 [turbine_a, turbine_a, turbine_b])) =
      corrections integral_float_str (with_coordinates (enumerate 0 (concat gdfs))))"
proof -
  let ?fl = "[turbine_a, turbine_a, turbine_b]"
  let ?out = "corrections integral_float_str (with_coordinates (enumerate 0 ?fl))"
  note w = index_labels_kept [OF refl, of integral_float_str ?fl "sample_service 200 ?fl"
      "[ids_params, batch_params [1, 2]]" ?out]
  have e: "map fst ?out = [0, 2]"
    by (simp add: rules_eval)
  from w have 1: "subseq (map fst ?out) [0..<length ?fl]"
    by (elim conjE) assumption
  from w have 2: "map fst ?out \<noteq> [0..<length ?out] \<longleftrightarrow>
       (\<exists>i \<in> set (map fst ?out). \<exists>j < i. j \<notin> set (map fst ?out))"
    by (elim conjE) assumption
  from w have 3: "main integral_float_str (sample_service 200 ?fl) =
       ([ids_params, batch_params [1, 2]], Inr ?out) \<longrightarrow>
       (\<exists>gdfs. ?out = corrections integral_float_str
          (with_coordinates (enumerate 0 (concat gdfs))))"
    by (elim conjE) assumption
  have g: "\<exists>i \<in> set (map fst ?out). \<exists>j < i. j \<notin> set (map fst ?out)"
    unfolding e by (intro bexI [of _ 2] exI [of _ 1]) simp_all
  have l: "length ?out = length [0::nat, 2]"
    using arg_cong [OF e, of length] by simp
  from 2 g have 4: "[0, 2] \<noteq> [0..<length [0::nat, 2]]"
    unfolding e l by (elim iffE impE) assumption
  from 3 sample_run [OF sample_columns(1), of integral_float_str "[turbine_a, turbine_b]"] have 5:
    "\<exists>gdfs. ?out = corrections integral_float_str (with_coordinates (enumerate 0 (concat gdfs)))"
    by (rule mp)
  have 6: "(2::nat) \<in> set [0, 2]" "(1::nat) < 2" "(1::nat) \<notin> set [0, 2]" by simp_all
  from e 1 [unfolded e] 6 4 5 show ?thesis
    by (intro conjI)
qed

text \<open>
  Claim C10 as stated has the labels non-contiguous whenever a row was removed. The
  service returns the same turbine twice: the second row is removed as a duplicate, one
  row is written, and its label 0 is the contiguous numbering of one row.
\<close>

theorem trailing_duplicate_leaves_no_gap:
  "(case snd (main integral_float_str (sample_service 200 [turbine_a, turbine_a])) of
      Inl e \<Rightarrow> False
    | Inr out \<Rightarrow>
        length out < length [turbine_a, turbine_a] \<and> map fst out = [0..<length out])"
  by (simp add: run_eval rules_eval)

end
